theory Spec2Isabelle
  imports Main
begin

section \<open>Placeholder resolver (src/formatter/Params.ts)\<close>

text \<open>
  \<^verbatim>\<open>ParamItems | string[] | undefined\<close>: a mapping from names to values or an ordered
  sequence of values; \<open>undefined\<close> is \<open>None\<close> on the field below. A mapping is an
  ordinary object: its own string-valued properties and, behind them, what every object
  inherits from \<open>Object.prototype\<close>. An array is its elements (the properties named
  \<open>"0"\<close>, \<open>"1"\<close>, ...), its \<open>length\<close>, and what arrays inherit.
\<close>

datatype ParamSource = ParamItems "string \<rightharpoonup> string" | ParamArray "string list"

text \<open>
  What a property read can yield: a string, \<open>undefined\<close>, a number (an array's
  \<open>length\<close>), or the built-in value inherited under a name (a method of the prototype,
  known here by its name only).
\<close>

datatype jsvalue = Str string | Undefined | Number nat | Builtin string

text \<open>The names every ordinary object inherits, and the further names arrays inherit.\<close>

definition Object_prototype :: "string list" where
  "Object_prototype =
     [''constructor'', ''__defineGetter__'', ''__defineSetter__'', ''hasOwnProperty'',
      ''__lookupGetter__'', ''__lookupSetter__'', ''isPrototypeOf'', ''propertyIsEnumerable'',
      ''toString'', ''valueOf'', ''__proto__'', ''toLocaleString'']"

definition Array_prototype :: "string list" where
  "Array_prototype =
     [''at'', ''concat'', ''copyWithin'', ''entries'', ''every'', ''fill'', ''filter'', ''find'',
      ''findIndex'', ''findLast'', ''findLastIndex'', ''flat'', ''flatMap'', ''forEach'',
      ''includes'', ''indexOf'', ''join'', ''keys'', ''lastIndexOf'', ''map'', ''pop'', ''push'',
      ''reduce'', ''reduceRight'', ''reverse'', ''shift'', ''slice'', ''some'', ''sort'',
      ''splice'', ''toReversed'', ''toSorted'', ''toSpliced'', ''unshift'', ''values'', ''with'']"

text \<open>The class: its two fields. The cursor is a number that only ever counts calls.\<close>

record Params =
  params :: "ParamSource option"
  index :: nat

text \<open>The argument of \<open>get\<close>: \<^verbatim>\<open>{ key?: string; text: string }\<close>.\<close>

record placeholder =
  key :: "string option"
  text' :: string

definition Params_new :: "ParamSource option \<Rightarrow> Params" where
  "Params_new p = \<lparr>params = p, index = 0\<rparr>"

text \<open>\<^verbatim>\<open>if (key)\<close>: an absent key and the empty string are both falsy.\<close>

fun truthy :: "string option \<Rightarrow> bool" where
  "truthy None = False"
| "truthy (Some k) = (k \<noteq> [])"

text \<open>The decimal name under which the number \<open>n\<close> is a property key.\<close>

fun digit_char :: "nat \<Rightarrow> char" where
  "digit_char n = ''0123456789'' ! n"

function ToString :: "nat \<Rightarrow> string" where
  "ToString n = (if n < 10 then [digit_char n] else ToString (n div 10) @ [digit_char (n mod 10)])"
  by pat_completeness auto
termination
  by (relation "measure id") auto

declare ToString.simps [simp del]

text \<open>\<^verbatim>\<open>params[key]\<close> for a string key, and \<^verbatim>\<open>params[index]\<close> for a number.\<close>

fun property :: "ParamSource \<Rightarrow> string \<Rightarrow> jsvalue" where
  "property (ParamItems m) k =
     (case m k of
        Some v \<Rightarrow> Str v
      | None \<Rightarrow> if k \<in> set Object_prototype then Builtin k else Undefined)"
| "property (ParamArray xs) k =
     (case filter (\<lambda>i. ToString i = k) [0..<length xs] of
        i # _ \<Rightarrow> Str (xs ! i)
      | [] \<Rightarrow>
          if k = ''length'' then Number (length xs)
          else if k \<in> set (Array_prototype @ Object_prototype) then Builtin k
          else Undefined)"

fun element :: "ParamSource \<Rightarrow> nat \<Rightarrow> jsvalue" where
  "element (ParamArray xs) i = (if i < length xs then Str (xs ! i) else Undefined)"
| "element (ParamItems m) i = (case m (ToString i) of Some v \<Rightarrow> Str v | None \<Rightarrow> Undefined)"

text \<open>
  \<open>get\<close> returns the value together with the object after the
  call, since \<^verbatim>\<open>this.index++\<close> mutates it.
\<close>

definition get :: "Params \<Rightarrow> placeholder \<Rightarrow> jsvalue \<times> Params" where
  "get P ph =
     (case params P of
        None \<Rightarrow> (Str (text' ph), P)
      | Some src \<Rightarrow>
          if truthy (key ph) then (property src (the (key ph)), P)
          else (element src (index P), P\<lparr>index := index P + 1\<rparr>))"

text \<open>Successive calls on one instance, in order, with the values they return.\<close>

fun get_all :: "Params \<Rightarrow> placeholder list \<Rightarrow> jsvalue list \<times> Params" where
  "get_all P [] = ([], P)"
| "get_all P (ph # phs) =
     (let (v, P') = get P ph; (vs, P'') = get_all P' phs in (v # vs, P''))"


section \<open>Regular expressions\<close>

text \<open>
  The patterns of the rule table, as syntax trees of the constructs the source's regular
  expressions use. Strings are lists of 8-bit characters (code units up to 0xFF).
  The engine joins the patterns of all rules into one expression of its own; the flags
  \<open>i\<close>, \<open>m\<close>, \<open>g\<close> and \<open>y\<close> are not allowed on a rule (the constructor removes them as
  disallowed) because the engine sets what it needs itself, and it matches in multiline
  mode. So the meaning given below has no case folding, and \<open>^\<close> and \<open>$\<close> are the start
  and the end of a line.
\<close>

datatype regex =
    Lit string            \<comment> \<open>a literal sequence of characters\<close>
  | Class "char list"     \<comment> \<open>\<open>[...]\<close>\<close>
  | NoneOf "char list"    \<comment> \<open>\<open>[^...]\<close>; \<open>[^]\<close> is \<open>NoneOf []\<close>\<close>
  | Seq regex regex
  | Alt regex regex       \<comment> \<open>\<open>a|b\<close>, \<open>a\<close> tried first\<close>
  | Opt regex             \<comment> \<open>\<open>a?\<close>\<close>
  | Star regex            \<comment> \<open>\<open>a*\<close>, greedy\<close>
  | LazyStar regex        \<comment> \<open>\<open>a*?\<close>\<close>
  | NotAhead regex        \<comment> \<open>\<open>(?!a)\<close>\<close>
  | Bol                   \<comment> \<open>\<open>^\<close>, at the start of a line\<close>
  | Eol                   \<comment> \<open>\<open>$\<close>, at the end of a line\<close>
  | WordB                 \<comment> \<open>\<open>\b\<close>\<close>

abbreviation Plus :: "regex \<Rightarrow> regex" where
  "Plus a \<equiv> Seq a (Star a)"

definition word_chars :: "char list" where
  "word_chars = ''abcdefghijklmnopqrstuvwxyzABCDEFGHIJKLMNOPQRSTUVWXYZ0123456789_''"

text \<open>Line terminators among the 8-bit characters: line feed and carriage return.\<close>

definition line_terminator :: "char \<Rightarrow> bool" where
  "line_terminator c = (c = CHR 0x0A \<or> c = CHR 0x0D)"

definition word_at :: "string \<Rightarrow> nat \<Rightarrow> bool" where
  "word_at s p = (p < length s \<and> s ! p \<in> set word_chars)"

text \<open>
  \<open>ends r s p\<close>: the positions at which a match of \<open>r\<close> that starts at position \<open>p\<close> of
  \<open>s\<close> can end, in the order in which a backtracking matcher tries them. An iteration
  of a star that consumes nothing is not continued.
\<close>

function ends :: "regex \<Rightarrow> string \<Rightarrow> nat \<Rightarrow> nat list" where
  "ends (Lit w) s p = (if take (length w) (drop p s) = w then [p + length w] else [])"
| "ends (Class cs) s p = (if p < length s \<and> s ! p \<in> set cs then [Suc p] else [])"
| "ends (NoneOf cs) s p = (if p < length s \<and> s ! p \<notin> set cs then [Suc p] else [])"
| "ends (Seq a b) s p = concat (map (ends b s) (ends a s p))"
| "ends (Alt a b) s p = ends a s p @ ends b s p"
| "ends (Opt a) s p = ends a s p @ [p]"
| "ends (Star a) s p =
     concat (map (\<lambda>e. if p < e \<and> e \<le> length s then ends (Star a) s e else []) (ends a s p)) @ [p]"
| "ends (LazyStar a) s p =
     p # concat (map (\<lambda>e. if p < e \<and> e \<le> length s then ends (LazyStar a) s e else []) (ends a s p))"
| "ends (NotAhead a) s p = (if ends a s p = [] then [p] else [])"
| "ends Bol s p =
     (if p = 0 \<or> (p \<le> length s \<and> line_terminator (s ! (p - 1))) then [p] else [])"
| "ends Eol s p =
     (if p = length s \<or> (p < length s \<and> line_terminator (s ! p)) then [p] else [])"
| "ends WordB s p = (if (0 < p \<and> word_at s (p - 1)) \<noteq> word_at s p then [p] else [])"
  by pat_completeness auto
termination
  by (relation "measures [\<lambda>(r, s, p). size r, \<lambda>(r, s, p). length s - p]") auto

declare ends.simps [simp del]

text \<open>
  A pattern applied at a cursor: the length of the first match that starts exactly
  there, if there is one.
\<close>

type_synonym pattern = "string \<Rightarrow> nat \<Rightarrow> nat option"

definition re_exec :: "regex \<Rightarrow> pattern" where
  "re_exec r s p = (case ends r s p of [] \<Rightarrow> None | e # _ \<Rightarrow> Some (e - p))"

section \<open>Lexer engine\<close>

text \<open>
  The keys of the rule table: the members of \<^verbatim>\<open>TokenType\<close> (declared in
  \<^verbatim>\<open>../core/token\<close>, not under src/) that the constructor uses, and its five literal
  keys. They are taken to be distinct keys.
\<close>

datatype TokenType =
    WS | NL | BLOCK_COMMENT | LINE_COMMENT | COMMA | OPEN_PAREN | CLOSE_PAREN
  | OPEN_BRACKET | CLOSE_BRACKET | OPERATOR | NUMBER | CASE_START | CASE_END
  | RESERVED_COMMAND | RESERVED_BINARY_COMMAND | RESERVED_DEPENDENT_CLAUSE
  | RESERVED_LOGICAL_OPERATOR | RESERVED_KEYWORD | INDEXED_PLACEHOLDER
  | NAMED_PLACEHOLDER | STRING_PLACEHOLDER | STRING | WORD

text \<open>Modelled from the spec: a token is its category, the matched text and its offset.\<close>

record token =
  category :: TokenType
  tok_text :: string
  offset :: nat

text \<open>
  Modelled from the spec: how a run of the engine ends, at the end of the input, at an
  offset where no rule matches, or at a match of length zero, which is the one error.
\<close>

datatype outcome = EndOfInput | Unmatched nat | ZeroLength nat

datatype error = ZeroLengthMatch nat

text \<open>
  Modelled from the spec: the lexer engine that \<^verbatim>\<open>moo.compile\<close> builds and that
  \<^verbatim>\<open>LEXER.reset(input)\<close> and the iteration of \<^verbatim>\<open>Array.from(LEXER)\<close> run; the source
  only calls it. At the cursor the rules are tried in table order and the first whose
  pattern matches there wins; a token with the matched text is emitted and the cursor
  moves past it. A match of length zero is fatal. When no rule matches, the sequence
  ends early with the tokens produced so far. At the end of the input it ends normally.
  \<open>first_match\<close> is the choice of the rule at one offset.
\<close>

fun first_match :: "(TokenType \<times> pattern) list \<Rightarrow> string \<Rightarrow> nat \<Rightarrow> (TokenType \<times> nat) option" where
  "first_match [] s p = None"
| "first_match ((n, m) # rs) s p =
     (case m s p of Some k \<Rightarrow> Some (n, k) | None \<Rightarrow> first_match rs s p)"

text \<open>
  Modelled from the spec: the engine's loop from the offset \<open>p\<close>, with the tokens it
  emits and the way it ends.
\<close>

function run :: "(TokenType \<times> pattern) list \<Rightarrow> string \<Rightarrow> nat \<Rightarrow> token list \<times> outcome" where
  "run rs s p =
     (if length s \<le> p then ([], EndOfInput)
      else case first_match rs s p of
        None \<Rightarrow> ([], Unmatched p)
      | Some (n, k) \<Rightarrow>
          if k = 0 then ([], ZeroLength p)
          else (let (ts, out) = run rs s (p + k)
                in (\<lparr>category = n, tok_text = take k (drop p s), offset = p\<rparr> # ts, out)))"
  by pat_completeness auto
termination
  by (relation "measure (\<lambda>(rs, s, p). length s - p)") auto

declare run.simps [simp del]

text \<open>
  Modelled from the spec: the offsets at which the cursor of this loop stands while it
  runs from \<open>p\<close>.
\<close>

function cursors :: "(TokenType \<times> pattern) list \<Rightarrow> string \<Rightarrow> nat \<Rightarrow> nat list" where
  "cursors rs s p =
     p # (if length s \<le> p then []
          else case first_match rs s p of
            None \<Rightarrow> []
          | Some (n, k) \<Rightarrow> if k = 0 then [] else cursors rs s (p + k))"
  by pat_completeness auto
termination
  by (relation "measure (\<lambda>(rs, s, p). length s - p)") auto

declare cursors.simps [simp del]

text \<open>
  Modelled from the spec: the sequence as the caller receives it from the engine. A
  match of length zero is the fatal error; a sequence that ended early is returned like
  one that ended at the end of the input.
\<close>

definition run_all :: "(TokenType \<times> pattern) list \<Rightarrow> string \<Rightarrow> error + token list" where
  "run_all rs s =
     (case run rs s 0 of
        (ts, ZeroLength p) \<Rightarrow> Inl (ZeroLengthMatch p)
      | (ts, _) \<Rightarrow> Inr ts)"

section \<open>Tokenizer (src/lexer/tokenizer.ts)\<close>

text \<open>
  \<^verbatim>\<open>StringPatternType\<close> is declared in mooRegexFactory, not under src/; the
  constructor's comment documents \<open>stringTypes\<close> as strings such as \<open>""\<close>, \<open>[]\<close>, \<open>N''\<close>.
\<close>

type_synonym StringPatternType = string

text \<open>
  \<^verbatim>\<open>TokenizerOptions\<close>. Optional fields are options; \<open>specialWordChars\<close> is the object's
  entries in the order the caller wrote them.
\<close>

record TokenizerOptions =
  reservedKeywords :: "string list"
  reservedCommands :: "string list"
  reservedLogicalOperators :: "string list"
  reservedDependentClauses :: "string list"
  reservedBinaryCommands :: "string list"
  stringTypes :: "StringPatternType list"
  blockStart :: "string list"
  blockEnd :: "string list"
  indexedPlaceholderTypes :: "string list option"
  namedPlaceholderTypes :: "string list"
  lineCommentTypes :: "string list"
  specialWordChars :: "(string \<times> string option) list option"
  operators :: "string list option"

text \<open>
  The functions imported from \<^verbatim>\<open>../core/mooRegexFactory\<close>. Their code is not under
  src/, so the constructor takes them as a parameter. Each returns a regular
  expression; \<open>placeholderRegex\<close> receives its second argument as the expression that
  the pattern source denotes.
\<close>

record mooRegexFactory =
  lineCommentRegex :: "string list \<Rightarrow> regex"
  operatorRegex :: "string \<Rightarrow> string list \<Rightarrow> regex"
  placeholderRegex :: "string list \<Rightarrow> regex \<Rightarrow> regex"
  reservedWordRegex :: "string list \<Rightarrow> string \<Rightarrow> regex"
  stringRegex :: "StringPatternType list \<Rightarrow> regex"
  wordRegex :: "(string \<times> string option) list option \<Rightarrow> regex"

text \<open>A rule of the table: \<^verbatim>\<open>{ match, lineBreaks }\<close>.\<close>

record Rule =
  match :: "regex option"
  lineBreaks :: bool

record Tokenizer =
  LEXER_OPTIONS :: "(TokenType \<times> Rule) list"
  LEXER :: "(TokenType \<times> pattern) list"

definition rule :: "regex \<Rightarrow> Rule" where
  "rule r = \<lparr>match = Some r, lineBreaks = False\<rparr>"

definition rule_lb :: "regex \<Rightarrow> Rule" where
  "rule_lb r = \<lparr>match = Some r, lineBreaks = True\<rparr>"

text \<open>\<^verbatim>\<open>Object.values(cfg.specialWordChars ?? {}).join('')\<close>\<close>

definition specialWordCharsAll :: "TokenizerOptions \<Rightarrow> string" where
  "specialWordCharsAll cfg =
     concat (map (\<lambda>(k, v). case v of None \<Rightarrow> [] | Some x \<Rightarrow> x)
       (case specialWordChars cfg of None \<Rightarrow> [] | Some obj \<Rightarrow> obj))"

definition digits :: "char list" where
  "digits = ''0123456789''"

text \<open>\<open>\s\<close> on 8-bit characters: tab, line feed, vertical tab, form feed, carriage return,
  space, no-break space.\<close>

definition whitespace :: "char list" where
  "whitespace = [CHR 0x09, CHR 0x0A, CHR 0x0B, CHR 0x0C, CHR 0x0D, CHR 0x20, CHR 0xA0]"

text \<open>\<^verbatim>\<open>/^(?:\/\*[^]*?(?:\*\/|$))/u\<close>\<close>

definition BLOCK_COMMENT_regex :: regex where
  "BLOCK_COMMENT_regex =
     Seq Bol (Seq (Lit ''/*'') (Seq (LazyStar (NoneOf [])) (Alt (Lit ''*/'') Eol)))"

text \<open>\<^verbatim>\<open>/^(?:(?:-\s*)?[0-9]+(?:\.[0-9]+)?(?:[eE][-+]?[0-9]+(?:\.[0-9]+)?)?|0x[0-9a-fA-F]+|0b[01]+)\b/u\<close>\<close>

definition NUMBER_regex :: regex where
  "NUMBER_regex =
     Seq Bol
       (Seq
         (Alt
           (Seq (Opt (Seq (Lit ''-'') (Star (Class whitespace))))
             (Seq (Plus (Class digits))
               (Seq (Opt (Seq (Lit ''.'') (Plus (Class digits))))
                 (Opt (Seq (Class ''eE'')
                   (Seq (Opt (Class ''-+''))
                     (Seq (Plus (Class digits))
                       (Opt (Seq (Lit ''.'') (Plus (Class digits)))))))))))
           (Alt (Seq (Lit ''0x'') (Plus (Class ''0123456789abcdefABCDEF'')))
                (Seq (Lit ''0b'') (Plus (Class ''01'')))))
         WordB)"

text \<open>\<^verbatim>\<open>/[Cc][Aa][Ss][Ee]/u\<close> and \<^verbatim>\<open>/[Ee][Nn][Dd]/u\<close>\<close>

definition CASE_START_regex :: regex where
  "CASE_START_regex = Seq (Class ''Cc'') (Seq (Class ''Aa'') (Seq (Class ''Ss'') (Class ''Ee'')))"

definition CASE_END_regex :: regex where
  "CASE_END_regex = Seq (Class ''Ee'') (Seq (Class ''Nn'') (Class ''Dd''))"

text \<open>\<^verbatim>\<open>lineCommentRegex(cfg.lineCommentTypes)\<close>\<close>

definition LINE_COMMENT_regex :: "mooRegexFactory \<Rightarrow> TokenizerOptions \<Rightarrow> regex" where
  "LINE_COMMENT_regex F cfg = lineCommentRegex F (lineCommentTypes cfg)"

text \<open>\<^verbatim>\<open>operatorRegex('+-/*%&|^><=.;{}`:$', ['<>', '<=', '>=', '!=', ...(cfg.operators ?? [])])\<close>\<close>

definition OPERATOR_regex :: "mooRegexFactory \<Rightarrow> TokenizerOptions \<Rightarrow> regex" where
  "OPERATOR_regex F cfg =
     operatorRegex F ''+-/*%&|^><=.;{}`:$''
       ([''<>'', ''<='', ''>='', ''!='']
          @ (case operators cfg of None \<Rightarrow> [] | Some ops \<Rightarrow> ops))"

text \<open>The table the constructor writes, in its order.\<close>

definition options :: "mooRegexFactory \<Rightarrow> TokenizerOptions \<Rightarrow> (TokenType \<times> Rule) list" where
  "options F cfg =
     [(WS, rule (Plus (Class [CHR 0x20, CHR 0x09]))),
      (NL, rule_lb (Lit [CHR 0x0A])),
      (BLOCK_COMMENT, rule_lb BLOCK_COMMENT_regex),
      (LINE_COMMENT, rule (LINE_COMMENT_regex F cfg)),
      (COMMA, rule (Class '','')),
      (OPEN_PAREN, rule (Class ''('')),
      (CLOSE_PAREN, rule (Class '')'')),
      (OPEN_BRACKET, rule (Class ''['')),
      (CLOSE_BRACKET, rule (Class '']'')),
      (OPERATOR, rule (OPERATOR_regex F cfg)),
      (NUMBER, rule NUMBER_regex),
      (CASE_START, rule CASE_START_regex),
      (CASE_END, rule CASE_END_regex),
      (RESERVED_COMMAND,
         rule (reservedWordRegex F (reservedCommands cfg) (specialWordCharsAll cfg))),
      (RESERVED_BINARY_COMMAND,
         rule (reservedWordRegex F (reservedBinaryCommands cfg) (specialWordCharsAll cfg))),
      (RESERVED_DEPENDENT_CLAUSE,
         rule (reservedWordRegex F (reservedDependentClauses cfg) (specialWordCharsAll cfg))),
      (RESERVED_LOGICAL_OPERATOR,
         rule (reservedWordRegex F (reservedLogicalOperators cfg) (specialWordCharsAll cfg))),
      (RESERVED_KEYWORD,
         rule (reservedWordRegex F (reservedKeywords cfg) (specialWordCharsAll cfg))),
      (INDEXED_PLACEHOLDER,
         rule (placeholderRegex F
           (case indexedPlaceholderTypes cfg of None \<Rightarrow> [] | Some ts \<Rightarrow> ts)
           (Star (Class digits)))),
      (NAMED_PLACEHOLDER,
         rule (placeholderRegex F (namedPlaceholderTypes cfg)
           (Plus (Class ''abcdefghijklmnopqrstuvwxyzABCDEFGHIJKLMNOPQRSTUVWXYZ0123456789._$'')))),
      (STRING_PLACEHOLDER,
         rule (placeholderRegex F (namedPlaceholderTypes cfg) (stringRegex F (stringTypes cfg)))),
      (STRING, rule (stringRegex F (stringTypes cfg))),
      (WORD, rule (wordRegex F (specialWordChars cfg)))]"

text \<open>
  The \<^verbatim>\<open>reduce\<close> over the entries: a rule without a \<open>match\<close> is dropped, the others
  are kept in order, their pattern recompiled with the flags \<open>i u m g y\<close> removed and
  \<open>u\<close> added. A syntax tree carries no flags, so it stays as it is.
\<close>

definition normalize :: "(TokenType \<times> Rule) list \<Rightarrow> (TokenType \<times> Rule) list" where
  "normalize opts =
     foldl (\<lambda>rules (name, regex). if match regex \<noteq> None then rules @ [(name, regex)] else rules)
       [] opts"

text \<open>
  Modelled from the spec: \<^verbatim>\<open>moo.compile\<close>, which makes the engine's table of the rules
  in their order, each pattern to be applied at the cursor, in the multiline reading
  that \<open>ends\<close> gives \<open>^\<close> and \<open>$\<close>.
\<close>

definition compile :: "(TokenType \<times> Rule) list \<Rightarrow> (TokenType \<times> pattern) list" where
  "compile opts = map (\<lambda>(name, r). (name, re_exec (the (match r)))) opts"

definition Tokenizer_new :: "mooRegexFactory \<Rightarrow> TokenizerOptions \<Rightarrow> Tokenizer" where
  "Tokenizer_new F cfg =
     (let opts = normalize (options F cfg)
      in \<lparr>LEXER_OPTIONS = opts, LEXER = compile opts\<rparr>)"

text \<open>\<^verbatim>\<open>this.LEXER.reset(input); return Array.from(this.LEXER)\<close>\<close>

definition tokenize :: "Tokenizer \<Rightarrow> string \<Rightarrow> error + token list" where
  "tokenize T input = run_all (LEXER T) input"


section \<open>The pattern factory, from the specification\<close>

text \<open>One of a list of alternatives, tried in order; none of an empty list.\<close>

definition one_of :: "regex list \<Rightarrow> regex" where
  "one_of rs = foldr Alt rs (Class [])"

text \<open>
  Modelled from the spec: \<open>lineCommentRegex\<close> of mooRegexFactory, not under src/.
  One of the configured prefixes, up to and not including the next newline or the end
  of the input.
\<close>

definition spec_lineCommentRegex :: "string list \<Rightarrow> regex" where
  "spec_lineCommentRegex types = Seq (one_of (map Lit types)) (Star (NoneOf [CHR 0x0A]))"

text \<open>
  Modelled from the spec: \<open>operatorRegex\<close> of mooRegexFactory, not under src/.
  Any of the listed multi-character operators, tried before the fallback to any one
  character of the base set.
\<close>

definition spec_operatorRegex :: "string \<Rightarrow> string list \<Rightarrow> regex" where
  "spec_operatorRegex monads polyads = Alt (one_of (map Lit polyads)) (Class monads)"

text \<open>
  Modelled from the spec: \<open>placeholderRegex\<close> of mooRegexFactory, not under src/.
  One of the configured prefixes followed by the given pattern.
\<close>

definition spec_placeholderRegex :: "string list \<Rightarrow> regex \<Rightarrow> regex" where
  "spec_placeholderRegex types pat = Seq (one_of (map Lit types)) pat"

definition lower :: "char \<Rightarrow> char" where
  "lower c = (let n = of_char c :: nat in if 65 \<le> n \<and> n \<le> 90 then char_of (n + 32) else c)"

definition upper :: "char \<Rightarrow> char" where
  "upper c = (let n = of_char c :: nat in if 97 \<le> n \<and> n \<le> 122 then char_of (n - 32) else c)"

definition any_case :: "string \<Rightarrow> regex" where
  "any_case w = foldr (\<lambda>c r. Seq (Class [lower c, upper c]) r) w (Lit [])"

text \<open>
  Modelled from the spec: \<open>reservedWordRegex\<close> of mooRegexFactory, not under src/.
  One of the configured words in any letter case, as a whole word: no word character
  and no configured special character follows it.
\<close>

definition spec_reservedWordRegex :: "string list \<Rightarrow> string \<Rightarrow> regex" where
  "spec_reservedWordRegex ws special =
     Seq (one_of (map any_case ws)) (NotAhead (Class (word_chars @ special)))"

text \<open>
  Modelled from the spec: \<open>stringRegex\<close> of mooRegexFactory, not under src/.
  A quoting style is written as in the constructor's comment (\<open>""\<close>, \<open>''\<close>, \<open>[]\<close>,
  \<open>N''\<close>): a prefix, then the opening and the closing delimiter. Inside the string a
  backslash escapes the character after it.
\<close>

definition quoted :: "StringPatternType \<Rightarrow> regex" where
  "quoted t =
     (let pre = take (length t - 2) t; opening = take 1 (drop (length t - 2) t);
          closing = drop (length t - 1) t
      in Seq (Lit (pre @ opening))
           (Seq (Star (Alt (Seq (Lit [CHR 0x5C]) (NoneOf [])) (NoneOf (CHR 0x5C # closing))))
                (Lit closing)))"

definition spec_stringRegex :: "StringPatternType list \<Rightarrow> regex" where
  "spec_stringRegex types = one_of (map quoted (filter (\<lambda>t. 2 \<le> length t) types))"

text \<open>
  Modelled from the spec: \<open>wordRegex\<close> of mooRegexFactory, not under src/.
  A run of word characters and configured special characters.
\<close>

definition spec_wordRegex :: "(string \<times> string option) list option \<Rightarrow> regex" where
  "spec_wordRegex special =
     Plus (Class (word_chars @
       concat (map (\<lambda>(k, v). case v of None \<Rightarrow> [] | Some x \<Rightarrow> x)
         (case special of None \<Rightarrow> [] | Some obj \<Rightarrow> obj))))"

definition spec_factory :: mooRegexFactory where
  "spec_factory =
     \<lparr>lineCommentRegex = spec_lineCommentRegex,
      operatorRegex = spec_operatorRegex,
      placeholderRegex = spec_placeholderRegex,
      reservedWordRegex = spec_reservedWordRegex,
      stringRegex = spec_stringRegex,
      wordRegex = spec_wordRegex\<rparr>"

text \<open>A small dialect, for the concrete instances below.\<close>

definition example_cfg :: TokenizerOptions where
  "example_cfg =
     \<lparr>reservedKeywords = [''AS'', ''WHEN'', ''THEN''],
      reservedCommands = [''SELECT'', ''FROM'', ''WHERE''],
      reservedLogicalOperators = [''AND'', ''OR''],
      reservedDependentClauses = [''ON''],
      reservedBinaryCommands = [''UNION''],
      stringTypes = [[CHR 0x27, CHR 0x27]],
      blockStart = [''(''],
      blockEnd = ['')''],
      indexedPlaceholderTypes = Some [''?''],
      namedPlaceholderTypes = [''@''],
      lineCommentTypes = [''--''],
      specialWordChars = None,
      operators = None\<rparr>"


section \<open>Properties of the placeholder resolver\<close>

lemma get_params [simp]: "params (snd (get P ph)) = params P"
  by (simp add: get_def split: option.splits)

lemma get_index:
  "index (snd (get P ph)) =
     (if params P \<noteq> None \<and> \<not> truthy (key ph) then index P + 1 else index P)"
  by (simp add: get_def split: option.splits)

lemma get_all_params [simp]: "params (snd (get_all P phs)) = params P"
proof (induction phs arbitrary: P)
  case Nil
  show ?case by simp
next
  case (Cons ph phs)
  have "params (snd (get_all (snd (get P ph)) phs)) = params (snd (get P ph))"
    by (rule Cons.IH)
  then show ?case by (simp add: split_beta Let_def)
qed

lemma get_all_index:
  "index (snd (get_all P phs)) =
     index P + (if params P = None then 0 else length (filter (\<lambda>ph. \<not> truthy (key ph)) phs))"
proof (induction phs arbitrary: P)
  case Nil
  show ?case by simp
next
  case (Cons ph phs)
  have "index (snd (get_all (snd (get P ph)) phs)) =
          index (snd (get P ph)) +
            (if params (snd (get P ph)) = None then 0
             else length (filter (\<lambda>ph. \<not> truthy (key ph)) phs))"
    by (rule Cons.IH)
  then show ?case by (simp add: split_beta Let_def get_index)
qed

text \<open>
  C3, as stated: with an array source every call, keyed or not, returns the element at
  the cursor and advances. It fails for a keyed call: with \<open>["a","b"]\<close> and the key
  \<open>foo\<close> the branch \<^verbatim>\<open>if (key)\<close> is taken first, the result is the array's property
  \<open>foo\<close>, which is undefined, and the cursor stays at 0.
\<close>

theorem get_array_keyed_counterexample:
  "get \<lparr>params = Some (ParamArray [''a'', ''b'']), index = 0\<rparr> \<lparr>key = Some ''foo'', text' = '':foo''\<rparr>
     = (Undefined, \<lparr>params = Some (ParamArray [''a'', ''b'']), index = 0\<rparr>)
   \<and> get \<lparr>params = Some (ParamArray [''a'', ''b'']), index = 0\<rparr> \<lparr>key = Some ''foo'', text' = '':foo''\<rparr>
     \<noteq> (Str ''a'', \<lparr>params = Some (ParamArray [''a'', ''b'']), index = 1\<rparr>)"
  by (simp add: get_def ToString.simps Array_prototype_def Object_prototype_def)

text \<open>
  C3, amended: with an array source, every call whose key is absent or empty returns the
  element at the cursor (undefined past the end) and advances the cursor by one; a call
  with a non-empty key returns the array's property of that name and leaves the cursor
  where it is.
\<close>

theorem get_array:
  "(\<not> truthy k \<longrightarrow>
      get \<lparr>params = Some (ParamArray xs), index = i\<rparr> \<lparr>key = k, text' = t\<rparr>
        = (if i < length xs then Str (xs ! i) else Undefined,
           \<lparr>params = Some (ParamArray xs), index = i + 1\<rparr>))
   \<and> (truthy k \<longrightarrow>
      get \<lparr>params = Some (ParamArray xs), index = i\<rparr> \<lparr>key = k, text' = t\<rparr>
        = (property (ParamArray xs) (the k), \<lparr>params = Some (ParamArray xs), index = i\<rparr>))"
  by (simp add: get_def)

theorem get_array_witness:
  "\<not> truthy None \<and> truthy (Some ''1'')
   \<and> get \<lparr>params = Some (ParamArray [''a'', ''b'']), index = 0\<rparr> \<lparr>key = None, text' = ''?''\<rparr>
       = (Str ''a'', \<lparr>params = Some (ParamArray [''a'', ''b'']), index = 1\<rparr>)
   \<and> get \<lparr>params = Some (ParamArray [''a'', ''b'']), index = 0\<rparr> \<lparr>key = Some ''1'', text' = ''?1''\<rparr>
       = (Str ''b'', \<lparr>params = Some (ParamArray [''a'', ''b'']), index = 0\<rparr>)"
  using get_array [of None "[''a'', ''b'']" 0 "''?''"]
        get_array [of "Some ''1''" "[''a'', ''b'']" 0 "''?1''"]
  by (simp add: ToString.simps)

text \<open>
  C4: with the ordered source \<open>["a","b"]\<close>, three successive keyless calls return
  \<open>"a"\<close>, then \<open>"b"\<close>, then undefined; the third call returns like the others and
  leaves the cursor at 3.
\<close>

theorem get_positional_example:
  "get_all (Params_new (Some (ParamArray [''a'', ''b''])))
     [\<lparr>key = None, text' = ''?''\<rparr>, \<lparr>key = None, text' = ''?''\<rparr>, \<lparr>key = None, text' = ''?''\<rparr>]
   = ([Str ''a'', Str ''b'', Undefined], \<lparr>params = Some (ParamArray [''a'', ''b'']), index = 3\<rparr>)"
  by (simp add: Params_new_def get_def)




text \<open>
  C6: an instance constructed without a source returns the placeholder's own text from
  every call, whatever the key, and stays as it was.
\<close>

theorem get_passthrough:
  "get \<lparr>params = None, index = i\<rparr> \<lparr>key = k, text' = t\<rparr> = (Str t, \<lparr>params = None, index = i\<rparr>)"
  by (simp add: get_def)

text \<open>
  C9: the cursor starts at 0; one call adds one to it exactly when a source is present
  and the key is absent or empty, and otherwise leaves it; over any sequence of calls it
  never decreases, and ends at its start plus the number of such positional lookups.
\<close>

theorem cursor_invariant:
  "index (Params_new src) = 0
   \<and> index (snd (get P ph)) =
       (if params P \<noteq> None \<and> \<not> truthy (key ph) then index P + 1 else index P)
   \<and> index P \<le> index (snd (get_all P phs))
   \<and> index (snd (get_all P phs)) =
       index P + (if params P = None then 0 else length (filter (\<lambda>ph. \<not> truthy (key ph)) phs))"
  by (simp add: Params_new_def get_index get_all_index)

section \<open>Properties of the lexer engine\<close>

lemma run_end [simp]: "length s \<le> p \<Longrightarrow> run rs s p = ([], EndOfInput)"
  by (simp add: run.simps)

lemma run_unmatched:
  "p < length s \<Longrightarrow> first_match rs s p = None \<Longrightarrow> run rs s p = ([], Unmatched p)"
  by (simp add: run.simps)

lemma run_emit:
  "p < length s \<Longrightarrow> first_match rs s p = Some (n, k) \<Longrightarrow> 0 < k \<Longrightarrow>
   run rs s p =
     (\<lparr>category = n, tok_text = take k (drop p s), offset = p\<rparr> # fst (run rs s (p + k)),
      snd (run rs s (p + k)))"
  by (subst run.simps) (simp add: split_beta)

lemma take_drop_step: "take k (drop p s) @ drop (p + k) s = drop p s"
  by (metis append_take_drop_id drop_drop add.commute)

lemma run_complete_text:
  "snd (run rs s p) = EndOfInput \<Longrightarrow> concat (map tok_text (fst (run rs s p))) = drop p s"
proof (induction rs s p rule: run.induct)
  case (1 rs s p)
  show ?case
  proof (cases "length s \<le> p")
    case True
    then show ?thesis by simp
  next
    case False
    then have lt: "p < length s" by simp
    show ?thesis
    proof (cases "first_match rs s p")
      case None
      with lt 1(2) show ?thesis by (simp add: run_unmatched)
    next
      case (Some nk)
      obtain n k where nk: "nk = (n, k)" by (cases nk)
      show ?thesis
      proof (cases "k = 0")
        case True
        with lt Some nk 1(2) show ?thesis by (simp add: run.simps)
      next
        case k: False
        have eq: "run rs s p =
            (\<lparr>category = n, tok_text = take k (drop p s), offset = p\<rparr> # fst (run rs s (p + k)),
             snd (run rs s (p + k)))"
          using lt Some nk k by (simp add: run_emit)
        with 1(2) have "snd (run rs s (p + k)) = EndOfInput" by simp
        with 1(1) [OF False Some nk [symmetric] k] 
        have "concat (map tok_text (fst (run rs s (p + k)))) = drop (p + k) s" by simp
        with eq show ?thesis by (simp add: take_drop_step)
      qed
    qed
  qed
qed

lemma cursors_unfold:
  "set (cursors rs s p) =
     insert p (if length s \<le> p then {}
               else case first_match rs s p of
                 None \<Rightarrow> {}
               | Some (n, k) \<Rightarrow> if k = 0 then {} else set (cursors rs s (p + k)))"
  by (subst cursors.simps) (auto split: option.splits)

lemma cursors_run:
  "q \<in> set (cursors rs s p) \<Longrightarrow>
   \<exists>pre. run rs s p = (pre @ fst (run rs s q), snd (run rs s q))
       \<and> concat (map tok_text pre) @ drop q s = drop p s \<and> p \<le> q"
proof (induction rs s p rule: cursors.induct)
  case (1 rs s p)
  show ?case
  proof (cases "q = p")
    case True
    then show ?thesis by (intro exI [of _ "[]"]) simp
  next
    case qp: False
    from 1(2) qp have lt: "p < length s"
      using cursors_unfold [of rs s p] by (auto split: if_splits)
    from 1(2) qp lt obtain n k where fm: "first_match rs s p = Some (n, k)" and k: "k \<noteq> 0"
      and q: "q \<in> set (cursors rs s (p + k))"
      using cursors_unfold [of rs s p] by (auto split: if_splits option.splits)
    from lt have nle: "\<not> length s \<le> p" by simp
    from 1(1) [OF nle fm refl k q] obtain pre
      where eqr: "run rs s (p + k) = (pre @ fst (run rs s q), snd (run rs s q))"
        and cat: "concat (map tok_text pre) @ drop q s = drop (p + k) s"
        and ple: "p + k \<le> q"
      by blast
    let ?t = "\<lparr>category = n, tok_text = take k (drop p s), offset = p\<rparr>"
    have "run rs s p = ((?t # pre) @ fst (run rs s q), snd (run rs s q))"
      using lt fm k eqr by (simp add: run_emit)
    moreover have "concat (map tok_text (?t # pre)) @ drop q s = drop p s"
      using cat by (simp add: take_drop_step)
    moreover have "p \<le> q" using ple by simp
    ultimately show ?thesis by blast
  qed
qed


text \<open>
  C1: when the engine runs over \<open>S\<close> to the end of the input, the texts of the tokens
  that \<open>tokenize\<close> returns, concatenated in order, are \<open>S\<close>.
\<close>

theorem tokenize_round_trip:
  "run (LEXER T) S 0 = (ts, EndOfInput) \<Longrightarrow>
   tokenize T S = Inr ts \<and> concat (map tok_text ts) = S"
  using run_complete_text [of "LEXER T" S 0] by (simp add: tokenize_def run_all_def)

theorem tokenize_round_trip_witness:
  "run (LEXER (Tokenizer_new spec_factory example_cfg)) ''select x, y'' 0 =
     ([\<lparr>category = RESERVED_COMMAND, tok_text = ''select'', offset = 0\<rparr>,
       \<lparr>category = WS, tok_text = '' '', offset = 6\<rparr>,
       \<lparr>category = WORD, tok_text = ''x'', offset = 7\<rparr>,
       \<lparr>category = COMMA, tok_text = '','', offset = 8\<rparr>,
       \<lparr>category = WS, tok_text = '' '', offset = 9\<rparr>,
       \<lparr>category = WORD, tok_text = ''y'', offset = 10\<rparr>], EndOfInput)
   \<and> concat (map tok_text
       [\<lparr>category = RESERVED_COMMAND, tok_text = ''select'', offset = 0\<rparr>,
        \<lparr>category = WS, tok_text = '' '', offset = 6\<rparr>,
        \<lparr>category = WORD, tok_text = ''x'', offset = 7\<rparr>,
        \<lparr>category = COMMA, tok_text = '','', offset = 8\<rparr>,
        \<lparr>category = WS, tok_text = '' '', offset = 9\<rparr>,
        \<lparr>category = WORD, tok_text = ''y'', offset = 10\<rparr>]) = ''select x, y''"
proof -
  have h: "run (LEXER (Tokenizer_new spec_factory example_cfg)) ''select x, y'' 0 =
     ([\<lparr>category = RESERVED_COMMAND, tok_text = ''select'', offset = 0\<rparr>,
       \<lparr>category = WS, tok_text = '' '', offset = 6\<rparr>,
       \<lparr>category = WORD, tok_text = ''x'', offset = 7\<rparr>,
       \<lparr>category = COMMA, tok_text = '','', offset = 8\<rparr>,
       \<lparr>category = WS, tok_text = '' '', offset = 9\<rparr>,
       \<lparr>category = WORD, tok_text = ''y'', offset = 10\<rparr>], EndOfInput)"
    by code_simp
  show ?thesis using h tokenize_round_trip [OF h] by simp
qed

section \<open>Properties of the patterns and of the rule table\<close>

lemma re_exec_none: "ends r s p = [] \<Longrightarrow> re_exec r s p = None"
  by (simp add: re_exec_def)

lemma re_exec_first: "ends r s p = e # es \<Longrightarrow> re_exec r s p = Some (e - p)"
  by (simp add: re_exec_def)

lemma class_none: "s ! p \<notin> set cs \<Longrightarrow> ends (Class cs) s p = []"
  by (simp add: ends.simps)

lemma class_match: "p < length s \<Longrightarrow> s ! p \<in> set cs \<Longrightarrow> ends (Class cs) s p = [Suc p]"
  by (simp add: ends.simps)

lemma lit_none: "p < length s \<Longrightarrow> s ! p \<noteq> c \<Longrightarrow> ends (Lit (c # w)) s p = []"
proof -
  assume lt: "p < length s" and ne: "s ! p \<noteq> c"
  from lt have "drop p s = s ! p # drop (Suc p) s" by (simp add: Cons_nth_drop_Suc)
  with ne show ?thesis by (simp add: ends.simps)
qed

lemma seq_none: "ends a s p = [] \<Longrightarrow> ends (Seq a b) s p = []"
  by (simp add: ends.simps)

lemma seq_one: "ends a s p = [e] \<Longrightarrow> ends (Seq a b) s p = ends b s e"
  by (simp add: ends.simps)

lemma bol_none: "ends a s p = [] \<Longrightarrow> ends (Seq Bol a) s p = []"
  by (auto simp add: ends.simps)

lemma alt_none: "ends a s p = [] \<Longrightarrow> ends b s p = [] \<Longrightarrow> ends (Alt a b) s p = []"
  by (simp add: ends.simps)

lemma opt_seq: "ends a s p = [] \<Longrightarrow> ends (Seq (Opt a) b) s p = ends b s p"
  by (simp add: ends.simps)

lemma number_none:
  "p < length s \<Longrightarrow> s ! p \<notin> set ''-0123456789'' \<Longrightarrow> ends NUMBER_regex s p = []"
  by (simp add: NUMBER_regex_def digits_def bol_none seq_none alt_none opt_seq lit_none class_none)

lemma block_none:
  "p < length s \<Longrightarrow> s ! p \<noteq> CHR ''/'' \<Longrightarrow> ends BLOCK_COMMENT_regex s p = []"
  by (simp add: BLOCK_COMMENT_regex_def bol_none seq_none lit_none)

lemma normalize_options: "normalize (options F cfg) = options F cfg"
  by (simp add: normalize_def options_def rule_def rule_lb_def)

lemma LEXER_table:
  "LEXER (Tokenizer_new F cfg) = compile (options F cfg)"
  by (simp add: Tokenizer_new_def normalize_options Let_def)

lemma case_end_match:
  "p + 3 \<le> length s \<Longrightarrow> s ! p \<in> set ''Ee'' \<Longrightarrow> s ! (p + 1) \<in> set ''Nn'' \<Longrightarrow>
   s ! (p + 2) \<in> set ''Dd'' \<Longrightarrow> ends CASE_END_regex s p = [p + 3]"
proof -
  assume a: "p + 3 \<le> length s" "s ! p \<in> set ''Ee''" "s ! (p + 1) \<in> set ''Nn''"
    "s ! (p + 2) \<in> set ''Dd''"
  have 1: "ends (Class ''Ee'') s p = [Suc p]" using a by (intro class_match) simp_all
  have 2: "ends (Class ''Nn'') s (Suc p) = [Suc (Suc p)]" using a by (intro class_match) simp_all
  have 3: "ends (Class ''Dd'') s (Suc (Suc p)) = [Suc (Suc (Suc p))]"
    using a by (intro class_match) simp_all
  show ?thesis unfolding CASE_END_regex_def by (simp add: seq_one [OF 1] seq_one [OF 2] 3)
qed

lemma case_start_match:
  "p + 4 \<le> length s \<Longrightarrow> s ! p \<in> set ''Cc'' \<Longrightarrow> s ! (p + 1) \<in> set ''Aa'' \<Longrightarrow>
   s ! (p + 2) \<in> set ''Ss'' \<Longrightarrow> s ! (p + 3) \<in> set ''Ee'' \<Longrightarrow>
   ends CASE_START_regex s p = [p + 4]"
proof -
  assume a: "p + 4 \<le> length s" "s ! p \<in> set ''Cc''" "s ! (p + 1) \<in> set ''Aa''"
    "s ! (p + 2) \<in> set ''Ss''" "s ! (p + 3) \<in> set ''Ee''"
  have 1: "ends (Class ''Cc'') s p = [Suc p]" using a by (intro class_match) simp_all
  have 2: "ends (Class ''Aa'') s (Suc p) = [Suc (Suc p)]" using a by (intro class_match) simp_all
  have 3: "ends (Class ''Ss'') s (Suc (Suc p)) = [Suc (Suc (Suc p))]"
    using a by (intro class_match) simp_all
  have 4: "ends (Class ''Ee'') s (Suc (Suc (Suc p))) = [Suc (Suc (Suc (Suc p)))]"
    using a by (intro class_match) (simp_all add: numeral_3_eq_3)
  show ?thesis unfolding CASE_START_regex_def
    by (simp add: seq_one [OF 1] seq_one [OF 2] seq_one [OF 3] 4)
qed


lemma table_skip_to_CASE:
  assumes lt: "p < length s"
    and c: "s ! p \<notin> set '' ,()[]/-0123456789''" "s ! p \<noteq> CHR 0x09" "s ! p \<noteq> CHR 0x0A"
    and lc: "re_exec (LINE_COMMENT_regex F cfg) s p = None"
    and op: "re_exec (OPERATOR_regex F cfg) s p = None"
  shows "first_match (LEXER (Tokenizer_new F cfg)) s p =
           first_match (drop 11 (LEXER (Tokenizer_new F cfg))) s p"
proof -
  have ws: "re_exec (Plus (Class [CHR 0x20, CHR 0x09])) s p = None"
    using c by (intro re_exec_none seq_none class_none) simp
  have nl: "re_exec (Lit [CHR 0x0A]) s p = None"
    using lt c by (intro re_exec_none lit_none) simp_all
  have bc: "re_exec BLOCK_COMMENT_regex s p = None"
    using lt c by (intro re_exec_none block_none) simp_all
  have p1: "re_exec (Class '','') s p = None" using c by (intro re_exec_none class_none) simp
  have p2: "re_exec (Class ''('') s p = None" using c by (intro re_exec_none class_none) simp
  have p3: "re_exec (Class '')'') s p = None" using c by (intro re_exec_none class_none) simp
  have p4: "re_exec (Class ''['') s p = None" using c by (intro re_exec_none class_none) simp
  have p5: "re_exec (Class '']'') s p = None" using c by (intro re_exec_none class_none) simp
  have nu: "re_exec NUMBER_regex s p = None"
    using lt c by (intro re_exec_none number_none) simp_all
  show ?thesis
    by (simp add: LEXER_table compile_def options_def rule_def rule_lb_def
                  ws nl bc lc p1 p2 p3 p4 p5 op nu)
qed

lemma first_match_CASE_END:
  assumes len: "p + 3 \<le> length s"
    and l: "s ! p \<in> set ''Ee''" "s ! (p + 1) \<in> set ''Nn''" "s ! (p + 2) \<in> set ''Dd''"
    and lc: "re_exec (LINE_COMMENT_regex F cfg) s p = None"
    and op: "re_exec (OPERATOR_regex F cfg) s p = None"
  shows "first_match (LEXER (Tokenizer_new F cfg)) s p = Some (CASE_END, 3)"
proof -
  from len have lt: "p < length s" by simp
  have 1: "first_match (LEXER (Tokenizer_new F cfg)) s p =
           first_match (drop 11 (LEXER (Tokenizer_new F cfg))) s p"
    using lt _ _ _ lc op by (rule table_skip_to_CASE) (use l in auto)
  have cs: "re_exec CASE_START_regex s p = None"
    unfolding CASE_START_regex_def using l by (intro re_exec_none seq_none class_none) auto
  have ce: "re_exec CASE_END_regex s p = Some 3"
    using case_end_match [OF len l] by (simp add: re_exec_def)
  show ?thesis unfolding 1
    by (simp add: LEXER_table compile_def options_def rule_def rule_lb_def cs ce)
qed

lemma first_match_CASE_START:
  assumes len: "p + 4 \<le> length s"
    and l: "s ! p \<in> set ''Cc''" "s ! (p + 1) \<in> set ''Aa''" "s ! (p + 2) \<in> set ''Ss''"
      "s ! (p + 3) \<in> set ''Ee''"
    and lc: "re_exec (LINE_COMMENT_regex F cfg) s p = None"
    and op: "re_exec (OPERATOR_regex F cfg) s p = None"
  shows "first_match (LEXER (Tokenizer_new F cfg)) s p = Some (CASE_START, 4)"
proof -
  from len have lt: "p < length s" by simp
  have 1: "first_match (LEXER (Tokenizer_new F cfg)) s p =
           first_match (drop 11 (LEXER (Tokenizer_new F cfg))) s p"
    using lt _ _ _ lc op by (rule table_skip_to_CASE) (use l in auto)
  have cs: "re_exec CASE_START_regex s p = Some 4"
    using case_start_match [OF len l] by (simp add: re_exec_def)
  show ?thesis unfolding 1
    by (simp add: LEXER_table compile_def options_def rule_def rule_lb_def cs)
qed


lemma first_match_BLOCK:
  assumes "ends BLOCK_COMMENT_regex (CHR ''/'' # CHR ''*'' # r) 0 = e # es"
  shows "first_match (LEXER (Tokenizer_new F cfg)) (CHR ''/'' # CHR ''*'' # r) 0
           = Some (BLOCK_COMMENT, e)"
proof -
  let ?s = "CHR ''/'' # CHR ''*'' # r"
  have ws: "re_exec (Plus (Class [CHR 0x20, CHR 0x09])) ?s 0 = None"
    by (intro re_exec_none seq_none class_none) simp
  have nl: "re_exec (Lit [CHR 0x0A]) ?s 0 = None"
    by (intro re_exec_none lit_none) simp_all
  have bc: "re_exec BLOCK_COMMENT_regex ?s 0 = Some e"
    using assms by (simp add: re_exec_def)
  show ?thesis
    by (simp add: LEXER_table compile_def options_def rule_def rule_lb_def ws nl bc)
qed

lemma run_all_complete: "run rs s 0 = (ts, EndOfInput) \<Longrightarrow> run_all rs s = Inr ts"
  by (simp add: run_all_def)

lemma lit_char: "p < length s \<Longrightarrow> s ! p = c \<Longrightarrow> ends (Lit [c]) s p = [Suc p]"
proof -
  assume lt: "p < length s" and c: "s ! p = c"
  from lt have "drop p s = s ! p # drop (Suc p) s" by (simp add: Cons_nth_drop_Suc)
  with c show ?thesis by (simp add: ends.simps)
qed

lemma first_match_NL:
  assumes "p < length s" and "s ! p = CHR 0x0A"
  shows "first_match (LEXER (Tokenizer_new F cfg)) s p = Some (NL, 1)"
proof -
  have ws: "re_exec (Plus (Class [CHR 0x20, CHR 0x09])) s p = None"
    using assms by (intro re_exec_none seq_none class_none) simp
  have nl: "re_exec (Lit [CHR 0x0A]) s p = Some 1"
    using lit_char [OF assms] by (simp add: re_exec_def)
  show ?thesis
    by (simp add: LEXER_table compile_def options_def rule_def rule_lb_def ws nl)
qed

text \<open>
  C7: the claim's own example holds, \<open>/* abc\<close> is one block-comment token. But the
  pattern ends a comment at \<open>$\<close>, which the engine reads as the end of a line: a block
  comment that spans lines is cut at its first line end, whether or not a closer follows
  later. With \<open>/* a\<close>, a line feed and \<open>b\<close> (or \<open>b */\<close>) the block-comment token is
  \<open>/* a\<close>, the line feed is a token of its own, and the rest of the comment is
  tokenized as ordinary text. The pattern's \<open>[^]\<close> and the rule's \<open>lineBreaks\<close> show
  that comments over several lines are meant to be one token.
\<close>

theorem block_comment_line_end:
  "tokenize (Tokenizer_new F cfg) ''/* abc''
     = Inr [\<lparr>category = BLOCK_COMMENT, tok_text = ''/* abc'', offset = 0\<rparr>]
   \<and> run (LEXER (Tokenizer_new F cfg)) (''/* a'' @ [CHR 0x0A] @ ''b'') 0
     = (\<lparr>category = BLOCK_COMMENT, tok_text = ''/* a'', offset = 0\<rparr>
          # \<lparr>category = NL, tok_text = [CHR 0x0A], offset = 4\<rparr>
          # fst (run (LEXER (Tokenizer_new F cfg)) (''/* a'' @ [CHR 0x0A] @ ''b'') 5),
        snd (run (LEXER (Tokenizer_new F cfg)) (''/* a'' @ [CHR 0x0A] @ ''b'') 5))
   \<and> run (LEXER (Tokenizer_new F cfg)) (''/* a'' @ [CHR 0x0A] @ ''b */'') 0
     = (\<lparr>category = BLOCK_COMMENT, tok_text = ''/* a'', offset = 0\<rparr>
          # \<lparr>category = NL, tok_text = [CHR 0x0A], offset = 4\<rparr>
          # fst (run (LEXER (Tokenizer_new F cfg)) (''/* a'' @ [CHR 0x0A] @ ''b */'') 5),
        snd (run (LEXER (Tokenizer_new F cfg)) (''/* a'' @ [CHR 0x0A] @ ''b */'') 5))"
proof -
  let ?L = "LEXER (Tokenizer_new F cfg)"
  have cut: "run ?L (CHR ''/'' # CHR ''*'' # r) 0
     = (\<lparr>category = BLOCK_COMMENT, tok_text = ''/* a'', offset = 0\<rparr>
          # \<lparr>category = NL, tok_text = [CHR 0x0A], offset = 4\<rparr>
          # fst (run ?L (CHR ''/'' # CHR ''*'' # r) 5),
        snd (run ?L (CHR ''/'' # CHR ''*'' # r) 5))"
    if e: "ends BLOCK_COMMENT_regex (CHR ''/'' # CHR ''*'' # r) 0 = 4 # es"
      and r: "take 3 r = '' a'' @ [CHR 0x0A]" and len: "3 < length r" for r es
  proof -
    let ?s = "CHR ''/'' # CHR ''*'' # r"
    from r len have r3: "r = CHR '' '' # CHR ''a'' # CHR 0x0A # drop 3 r"
      by (metis append_take_drop_id append_Cons append_Nil)
    have t4: "take 4 ?s = ''/* a''" and n4: "?s ! 4 = CHR 0x0A"
      by (subst r3, simp)+
    have fm0: "first_match ?L ?s 0 = Some (BLOCK_COMMENT, 4)"
      using e by (rule first_match_BLOCK)
    have fm4: "first_match ?L ?s 4 = Some (NL, 1)"
      using len n4 by (intro first_match_NL) simp_all
    have 0: "run ?L ?s 0 =
        (\<lparr>category = BLOCK_COMMENT, tok_text = take 4 (drop 0 ?s), offset = 0\<rparr>
           # fst (run ?L ?s (0 + 4)), snd (run ?L ?s (0 + 4)))"
      by (rule run_emit [OF _ fm0]) simp_all
    have d4: "take 1 (drop 4 ?s) = [CHR 0x0A]"
      by (subst r3) simp
    have 4: "run ?L ?s 4 =
        (\<lparr>category = NL, tok_text = take 1 (drop 4 ?s), offset = 4\<rparr>
           # fst (run ?L ?s (4 + 1)), snd (run ?L ?s (4 + 1)))"
      using len by (intro run_emit [OF _ fm4]) simp_all
    show ?thesis using 0 4 t4 d4 by simp
  qed
  have e1: "ends BLOCK_COMMENT_regex (''/* a'' @ [CHR 0x0A] @ ''b'') 0 = [4, 6]"
    by code_simp
  have e2: "ends BLOCK_COMMENT_regex (''/* a'' @ [CHR 0x0A] @ ''b */'') 0 = [4, 9, 9]"
    by code_simp
  have e3: "ends BLOCK_COMMENT_regex ''/* abc'' 0 = [6]"
    by code_simp
  have fm: "first_match ?L ''/* abc'' 0 = Some (BLOCK_COMMENT, 6)"
    using e3 first_match_BLOCK [of "'' abc''" 6 "[]" F cfg] by simp
  have "run ?L ''/* abc'' 0 =
        (\<lparr>category = BLOCK_COMMENT, tok_text = take 6 (drop 0 ''/* abc''), offset = 0\<rparr>
           # fst (run ?L ''/* abc'' (0 + 6)), snd (run ?L ''/* abc'' (0 + 6)))"
    by (rule run_emit [OF _ fm]) simp_all
  then have "run ?L ''/* abc'' 0
      = ([\<lparr>category = BLOCK_COMMENT, tok_text = ''/* abc'', offset = 0\<rparr>], EndOfInput)"
    by simp
  then have 1: "tokenize (Tokenizer_new F cfg) ''/* abc''
     = Inr [\<lparr>category = BLOCK_COMMENT, tok_text = ''/* abc'', offset = 0\<rparr>]"
    by (simp add: tokenize_def run_all_complete)
  from cut [of "'' a'' @ [CHR 0x0A] @ ''b''" "[6]"] e1
  have 2: "run ?L (''/* a'' @ [CHR 0x0A] @ ''b'') 0
     = (\<lparr>category = BLOCK_COMMENT, tok_text = ''/* a'', offset = 0\<rparr>
          # \<lparr>category = NL, tok_text = [CHR 0x0A], offset = 4\<rparr>
          # fst (run ?L (''/* a'' @ [CHR 0x0A] @ ''b'') 5),
        snd (run ?L (''/* a'' @ [CHR 0x0A] @ ''b'') 5))"
    by simp
  from cut [of "'' a'' @ [CHR 0x0A] @ ''b */''" "[9, 9]"] e2
  have 3: "run ?L (''/* a'' @ [CHR 0x0A] @ ''b */'') 0
     = (\<lparr>category = BLOCK_COMMENT, tok_text = ''/* a'', offset = 0\<rparr>
          # \<lparr>category = NL, tok_text = [CHR 0x0A], offset = 4\<rparr>
          # fst (run ?L (''/* a'' @ [CHR 0x0A] @ ''b */'') 5),
        snd (run ?L (''/* a'' @ [CHR 0x0A] @ ''b */'') 5))"
    by simp
  from 1 2 3 show ?thesis by blast
qed

lemma one_of_Cons: "ends (one_of (r # rs)) s p = ends r s p @ ends (one_of rs) s p"
  by (simp add: one_of_def ends.simps)

lemma one_of_Lit_first:
  "find (\<lambda>w. take (length w) (drop p s) = w) ws = Some w \<Longrightarrow>
   \<exists>es. ends (one_of (map Lit ws)) s p = (p + length w) # es"
proof (induction ws)
  case Nil
  then show ?case by simp
next
  case (Cons v ws)
  show ?case
  proof (cases "take (length v) (drop p s) = v")
    case True
    with Cons.prems have "w = v" by simp
    with True show ?thesis by (simp add: one_of_Cons ends.simps)
  next
    case False
    with Cons.prems have "find (\<lambda>w. take (length w) (drop p s) = w) ws = Some w" by simp
    from Cons.IH [OF this] False show ?thesis by (simp add: one_of_Cons ends.simps)
  qed
qed

text \<open>
  C8: with the operator pattern the specification describes, and no line-comment
  prefix matching there, \<open><>\<close> is tokenized into exactly one operator token \<open><>\<close>.
  More generally, wherever a listed multi-character operator fits, the operator pattern
  matches the first such operator of the list and not a single character.
\<close>

theorem multi_char_operator_first:
  "(operatorRegex F = spec_operatorRegex \<and> re_exec (LINE_COMMENT_regex F cfg) ''<>'' 0 = None \<longrightarrow>
      tokenize (Tokenizer_new F cfg) ''<>''
        = Inr [\<lparr>category = OPERATOR, tok_text = ''<>'', offset = 0\<rparr>])
   \<and> (find (\<lambda>w. take (length w) (drop p s) = w) polyads = Some w \<longrightarrow>
      re_exec (spec_operatorRegex monads polyads) s p = Some (length w))"
proof (intro conjI impI)
  assume a: "operatorRegex F = spec_operatorRegex \<and> re_exec (LINE_COMMENT_regex F cfg) ''<>'' 0 = None"
  let ?L = "LEXER (Tokenizer_new F cfg)"
  let ?s = "''<>''"
  have ws: "re_exec (Plus (Class [CHR 0x20, CHR 0x09])) ?s 0 = None"
    by (intro re_exec_none seq_none class_none) simp
  have nl: "re_exec (Lit [CHR 0x0A]) ?s 0 = None"
    by (intro re_exec_none lit_none) simp_all
  have bc: "re_exec BLOCK_COMMENT_regex ?s 0 = None"
    by (intro re_exec_none block_none) simp_all
  have p1: "re_exec (Class '','') ?s 0 = None" by (intro re_exec_none class_none) simp
  have p2: "re_exec (Class ''('') ?s 0 = None" by (intro re_exec_none class_none) simp
  have p3: "re_exec (Class '')'') ?s 0 = None" by (intro re_exec_none class_none) simp
  have p4: "re_exec (Class ''['') ?s 0 = None" by (intro re_exec_none class_none) simp
  have p5: "re_exec (Class '']'') ?s 0 = None" by (intro re_exec_none class_none) simp
  have "\<exists>es. ends (OPERATOR_regex F cfg) ?s 0 = 2 # es"
    using a by (simp add: OPERATOR_regex_def spec_operatorRegex_def one_of_Cons ends.simps(1,5))
  then have op: "re_exec (OPERATOR_regex F cfg) ?s 0 = Some 2"
    by (auto simp: re_exec_def)
  have fm: "first_match ?L ?s 0 = Some (OPERATOR, 2)"
    using a
    by (simp add: LEXER_table compile_def options_def rule_def rule_lb_def
                  ws nl bc p1 p2 p3 p4 p5 op)
  have "run ?L ?s 0 =
      (\<lparr>category = OPERATOR, tok_text = take 2 (drop 0 ?s), offset = 0\<rparr>
         # fst (run ?L ?s (0 + 2)), snd (run ?L ?s (0 + 2)))"
    by (rule run_emit [OF _ fm]) simp_all
  then have "run ?L ?s 0 = ([\<lparr>category = OPERATOR, tok_text = ?s, offset = 0\<rparr>], EndOfInput)"
    by simp
  then show "tokenize (Tokenizer_new F cfg) ?s
        = Inr [\<lparr>category = OPERATOR, tok_text = ?s, offset = 0\<rparr>]"
    by (simp add: tokenize_def run_all_complete)
next
  assume "find (\<lambda>w. take (length w) (drop p s) = w) polyads = Some w"
  from one_of_Lit_first [OF this] obtain es
    where "ends (one_of (map Lit polyads)) s p = (p + length w) # es" by blast
  then show "re_exec (spec_operatorRegex monads polyads) s p = Some (length w)"
    by (simp add: spec_operatorRegex_def re_exec_def ends.simps(5))
qed

theorem multi_char_operator_first_witness:
  "operatorRegex spec_factory = spec_operatorRegex
   \<and> re_exec (LINE_COMMENT_regex spec_factory example_cfg) ''<>'' 0 = None
   \<and> tokenize (Tokenizer_new spec_factory example_cfg) ''<>''
       = Inr [\<lparr>category = OPERATOR, tok_text = ''<>'', offset = 0\<rparr>]
   \<and> find (\<lambda>w. take (length w) (drop 2 ''a <= b'') = w) [''<>'', ''<='', ''>='', ''!='']
       = Some ''<=''
   \<and> re_exec (spec_operatorRegex ''+-/*%&|^><=.;{}`:$'' [''<>'', ''<='', ''>='', ''!=''])
         ''a <= b'' 2 = Some (length ''<='')"
proof -
  have h1: "operatorRegex spec_factory = spec_operatorRegex" by (simp add: spec_factory_def)
  have h2: "re_exec (LINE_COMMENT_regex spec_factory example_cfg) ''<>'' 0 = None"
    by code_simp
  have h3: "find (\<lambda>w. take (length w) (drop 2 ''a <= b'') = w) [''<>'', ''<='', ''>='', ''!='']
       = Some ''<=''"
    by simp
  show ?thesis
    using h1 h2 h3
      multi_char_operator_first [of spec_factory example_cfg 2 "''a <= b''"
        "[''<>'', ''<='', ''>='', ''!='']" "''<=''" "''+-/*%&|^><=.;{}`:$''"]
    by simp
qed

text \<open>
  C10: when the cursor stands where the letters of \<open>end\<close> (of \<open>case\<close>), in any
  letter case, begin, and neither a line comment nor an operator of the dialect starts
  there, the token emitted is the three-letter case-end token (the four-letter
  case-start token), whatever follows the letters; the rest of a longer word such as
  \<open>ENDING\<close> is tokenized separately from the offset behind them.
\<close>

theorem case_keyword_prefix:
  assumes reach: "p \<in> set (cursors (LEXER (Tokenizer_new F cfg)) s 0)"
    and lc: "re_exec (LINE_COMMENT_regex F cfg) s p = None"
    and op: "re_exec (OPERATOR_regex F cfg) s p = None"
  shows "(p + 3 \<le> length s \<and> s ! p \<in> set ''Ee'' \<and> s ! (p + 1) \<in> set ''Nn''
            \<and> s ! (p + 2) \<in> set ''Dd'' \<longrightarrow>
          (\<exists>pre. run (LEXER (Tokenizer_new F cfg)) s 0 =
              (pre @ \<lparr>category = CASE_END, tok_text = take 3 (drop p s), offset = p\<rparr>
                 # fst (run (LEXER (Tokenizer_new F cfg)) s (p + 3)),
               snd (run (LEXER (Tokenizer_new F cfg)) s (p + 3)))
            \<and> concat (map tok_text pre) = take p s))
       \<and> (p + 4 \<le> length s \<and> s ! p \<in> set ''Cc'' \<and> s ! (p + 1) \<in> set ''Aa''
            \<and> s ! (p + 2) \<in> set ''Ss'' \<and> s ! (p + 3) \<in> set ''Ee'' \<longrightarrow>
          (\<exists>pre. run (LEXER (Tokenizer_new F cfg)) s 0 =
              (pre @ \<lparr>category = CASE_START, tok_text = take 4 (drop p s), offset = p\<rparr>
                 # fst (run (LEXER (Tokenizer_new F cfg)) s (p + 4)),
               snd (run (LEXER (Tokenizer_new F cfg)) s (p + 4)))
            \<and> concat (map tok_text pre) = take p s))"
proof -
  let ?L = "LEXER (Tokenizer_new F cfg)"
  from cursors_run [OF reach] obtain pre
    where eqr: "run ?L s 0 = (pre @ fst (run ?L s p), snd (run ?L s p))"
      and cat: "concat (map tok_text pre) @ drop p s = drop 0 s"
    by blast
  have "concat (map tok_text pre) @ drop p s = take p s @ drop p s"
    using cat by simp
  then have pre: "concat (map tok_text pre) = take p s" by (simp only: append_same_eq)
  have emit: "\<exists>pre. run ?L s 0 =
              (pre @ \<lparr>category = n, tok_text = take k (drop p s), offset = p\<rparr>
                 # fst (run ?L s (p + k)), snd (run ?L s (p + k)))
            \<and> concat (map tok_text pre) = take p s"
    if "first_match ?L s p = Some (n, k)" and "0 < k" and "p < length s" for n k
    using eqr pre run_emit [OF that(3) that(1) that(2)] by (intro exI [of _ pre]) simp
  show ?thesis
  proof (intro conjI impI)
    assume h: "p + 3 \<le> length s \<and> s ! p \<in> set ''Ee'' \<and> s ! (p + 1) \<in> set ''Nn''
            \<and> s ! (p + 2) \<in> set ''Dd''"
    then have "first_match ?L s p = Some (CASE_END, 3)"
      using lc op by (intro first_match_CASE_END) simp_all
    moreover from h have "p < length s" by simp
    ultimately show "\<exists>pre. run ?L s 0 =
              (pre @ \<lparr>category = CASE_END, tok_text = take 3 (drop p s), offset = p\<rparr>
                 # fst (run ?L s (p + 3)), snd (run ?L s (p + 3)))
            \<and> concat (map tok_text pre) = take p s"
      by (intro emit) simp_all
  next
    assume h: "p + 4 \<le> length s \<and> s ! p \<in> set ''Cc'' \<and> s ! (p + 1) \<in> set ''Aa''
            \<and> s ! (p + 2) \<in> set ''Ss'' \<and> s ! (p + 3) \<in> set ''Ee''"
    then have "first_match ?L s p = Some (CASE_START, 4)"
      using lc op by (intro first_match_CASE_START) simp_all
    moreover from h have "p < length s" by simp
    ultimately show "\<exists>pre. run ?L s 0 =
              (pre @ \<lparr>category = CASE_START, tok_text = take 4 (drop p s), offset = p\<rparr>
                 # fst (run ?L s (p + 4)), snd (run ?L s (p + 4)))
            \<and> concat (map tok_text pre) = take p s"
      by (intro emit) simp_all
  qed
qed


theorem case_keyword_prefix_witness:
  "3 \<in> set (cursors (LEXER (Tokenizer_new spec_factory example_cfg)) ''x, ENDING'' 0)
   \<and> re_exec (LINE_COMMENT_regex spec_factory example_cfg) ''x, ENDING'' 3 = None
   \<and> re_exec (OPERATOR_regex spec_factory example_cfg) ''x, ENDING'' 3 = None
   \<and> 3 + 3 \<le> length ''x, ENDING'' \<and> ''x, ENDING'' ! 3 \<in> set ''Ee''
   \<and> ''x, ENDING'' ! (3 + 1) \<in> set ''Nn'' \<and> ''x, ENDING'' ! (3 + 2) \<in> set ''Dd''
   \<and> tokenize (Tokenizer_new spec_factory example_cfg) ''x, ENDING''
       = Inr [\<lparr>category = WORD, tok_text = ''x'', offset = 0\<rparr>,
              \<lparr>category = COMMA, tok_text = '','', offset = 1\<rparr>,
              \<lparr>category = WS, tok_text = '' '', offset = 2\<rparr>,
              \<lparr>category = CASE_END, tok_text = ''END'', offset = 3\<rparr>,
              \<lparr>category = WORD, tok_text = ''ING'', offset = 6\<rparr>]"
proof -
  have h1: "3 \<in> set (cursors (LEXER (Tokenizer_new spec_factory example_cfg)) ''x, ENDING'' 0)"
    by code_simp
  have h2: "re_exec (LINE_COMMENT_regex spec_factory example_cfg) ''x, ENDING'' 3 = None"
    by code_simp
  have h3: "re_exec (OPERATOR_regex spec_factory example_cfg) ''x, ENDING'' 3 = None"
    by code_simp
  have h4: "3 + 3 \<le> length ''x, ENDING'' \<and> ''x, ENDING'' ! 3 \<in> set ''Ee''
   \<and> ''x, ENDING'' ! (3 + 1) \<in> set ''Nn'' \<and> ''x, ENDING'' ! (3 + 2) \<in> set ''Dd''"
    by simp
  have t: "tokenize (Tokenizer_new spec_factory example_cfg) ''x, ENDING''
       = Inr [\<lparr>category = WORD, tok_text = ''x'', offset = 0\<rparr>,
              \<lparr>category = COMMA, tok_text = '','', offset = 1\<rparr>,
              \<lparr>category = WS, tok_text = '' '', offset = 2\<rparr>,
              \<lparr>category = CASE_END, tok_text = ''END'', offset = 3\<rparr>,
              \<lparr>category = WORD, tok_text = ''ING'', offset = 6\<rparr>]"
    by code_simp
  show ?thesis
    using h1 h2 h3 h4 t case_keyword_prefix [OF h1 h2 h3] by simp
qed

end
